theory Spec2Isabelle
  imports Main "HOL-Library.Multiset"
begin

section \<open>Data model of \<open>style.service.ts\<close>\<close>

text \<open>
  The style service talks to the host application through promises. A settled promise
  either resolves to a value or rejects; \<open>await\<close> inside \<open>try\<close>/\<open>catch\<close> turns a
  rejection (or a synchronous throw of the call) into the \<open>catch\<close> branch.
\<close>

datatype 'a promise = Resolves 'a | Rejects

text \<open>
  A synchronous call of a function that was passed in either returns a value or throws.
\<close>

datatype 'a outcome = Returns 'a | Throws

text \<open>
  The value \<open>apiResult\<close> has the TypeScript type \<open>boolean | null | undefined\<close>.
\<close>

datatype jsval = JBool bool | JNull | JUndefined

datatype ComboDetectionSource = Api | Heuristic | Policy

text \<open>
  \<open>properties\<close> is typed \<open>any\<close>; it is an object of CSS properties, modelled as an
  association list, \<open>{}\<close> being \<open>[]\<close>.
\<close>

type_synonym props = "(string \<times> string) list"

text \<open>
  The \<open>Style\<close> interface. Each method is represented by the outcome of calling it.
  \<open>isComboClass\<close> is optional: \<open>None\<close> is a style object without the method
  (\<open>typeof style.isComboClass !== 'function'\<close>). At run time the call may resolve to
  \<open>null\<close> or \<open>undefined\<close> as well as to a boolean, and \<open>getName\<close> may resolve to a
  missing name, which the code guards with \<open>name?.trim() || ""\<close>. The field \<open>id\<close> is
  named \<open>style_id\<close> here.
\<close>

record Style =
  style_id :: string
  getName :: "string option promise"
  getProperties :: "props promise"
  isComboClass :: "jsval promise option"

text \<open>
  \<open>ComboDetectionPolicy\<close> of \<open>linter.types.ts\<close>: one of three string literals or a
  custom function \<open>(apiResult, heuristicResult, className) => boolean\<close>. A custom
  function is supplied by the preset; for given arguments it returns a boolean or
  throws. \<open>UnrecognizedPolicy\<close> stands for any other value that reaches the \<open>switch\<close>
  at run time.
\<close>

datatype ComboDetectionPolicy =
    ApiFirst
  | ApiOnly
  | HeuristicOnly
  | CustomPolicy "jsval \<Rightarrow> bool \<Rightarrow> string \<Rightarrow> bool outcome"
  | UnrecognizedPolicy string

text \<open>
  Of a \<open>Preset\<close>, the style service reads only \<open>comboDetectionPolicy\<close>, which is
  optional.
\<close>

record Preset =
  preset_id :: string
  comboDetectionPolicy :: "ComboDetectionPolicy option"

record ComboDetectionResult =
  isCombo :: bool
  source :: ComboDetectionSource

text \<open>
  \<open>StyleInfo\<close>; its fields \<open>id\<close> and \<open>isCombo\<close> are named \<open>info_id\<close> and
  \<open>info_isCombo\<close>. \<open>order\<close> is a JavaScript number; every producer in this file
  stores an array index in it, and it is modelled as an integer.
\<close>

record StyleInfo =
  info_id :: string
  name :: string
  properties :: props
  order :: int
  info_isCombo :: bool
  comboDetectionSource :: "ComboDetectionSource option"

text \<open>
  An element handle: \<open>getStyles\<close> may be missing, may reject, or may resolve to an
  array of styles or to a missing value (\<open>appliedStyles?.length\<close>).
\<close>

record Element =
  getStyles :: "Style list option promise option"

section \<open>Regular expressions\<close>

text \<open>
  The heuristic is the regular expression
  \<^verbatim>\<open>/^(?:is-[A-Za-z0-9]|is_[A-Za-z0-9]|is[A-Z]).*/\<close> applied with \<open>test\<close>. The
  fragment of the regular-expression language it uses is embedded as a datatype, and
  matching is computed with derivatives. Strings are lists of 8-bit characters;
  character classes are lists of inclusive ranges compared by character code, so
  \<open>[A-Z]\<close> has exactly the 26 ASCII capitals.
\<close>

datatype regex =
    Zero
  | Eps
  | Chr char
  | CharClass "(char \<times> char) list"
  | Dot
  | Seq regex regex
  | Alt regex regex
  | Star regex

definition inRange :: "char \<Rightarrow> char \<times> char \<Rightarrow> bool" where
  "inRange c r = ((of_char (fst r) :: nat) \<le> of_char c \<and> (of_char c :: nat) \<le> of_char (snd r))"

definition inClass :: "char \<Rightarrow> (char \<times> char) list \<Rightarrow> bool" where
  "inClass c rs = list_ex (inRange c) rs"

text \<open>\<open>.\<close> matches every character but a line terminator.\<close>

definition isLineTerminator :: "char \<Rightarrow> bool" where
  "isLineTerminator c = (c = CHR 0x0A \<or> c = CHR 0x0D)"

fun nullable :: "regex \<Rightarrow> bool" where
  "nullable Zero = False"
| "nullable Eps = True"
| "nullable (Chr d) = False"
| "nullable (CharClass rs) = False"
| "nullable Dot = False"
| "nullable (Seq r s) = (nullable r \<and> nullable s)"
| "nullable (Alt r s) = (nullable r \<or> nullable s)"
| "nullable (Star r) = True"

fun deriv :: "char \<Rightarrow> regex \<Rightarrow> regex" where
  "deriv c Zero = Zero"
| "deriv c Eps = Zero"
| "deriv c (Chr d) = (if c = d then Eps else Zero)"
| "deriv c (CharClass rs) = (if inClass c rs then Eps else Zero)"
| "deriv c Dot = (if isLineTerminator c then Zero else Eps)"
| "deriv c (Seq r s) =
     (if nullable r then Alt (Seq (deriv c r) s) (deriv c s) else Seq (deriv c r) s)"
| "deriv c (Alt r s) = Alt (deriv c r) (deriv c s)"
| "deriv c (Star r) = Seq (deriv c r) (Star r)"

text \<open>
  \<open>matchPrefix r s\<close>: some prefix of \<open>s\<close> matches \<open>r\<close>. This is \<open>test\<close> for a pattern
  that starts with \<open>^\<close> (no \<open>m\<close> flag) and has no \<open>$\<close>.
\<close>

fun matchPrefix :: "regex \<Rightarrow> string \<Rightarrow> bool" where
  "matchPrefix r [] = nullable r"
| "matchPrefix r (c # cs) = (nullable r \<or> matchPrefix (deriv c r) cs)"

definition alnumClass :: regex where
  "alnumClass = CharClass [(CHR ''A'', CHR ''Z''), (CHR ''a'', CHR ''z''), (CHR ''0'', CHR ''9'')]"

definition comboPattern :: regex where
  "comboPattern =
     Seq (Alt (Alt (Seq (Chr CHR ''i'') (Seq (Chr CHR ''s'') (Seq (Chr CHR ''-'') alnumClass)))
                   (Seq (Chr CHR ''i'') (Seq (Chr CHR ''s'') (Seq (Chr CHR ''_'') alnumClass))))
              (Seq (Chr CHR ''i'') (Seq (Chr CHR ''s'') (CharClass [(CHR ''A'', CHR ''Z'')]))))
         (Star Dot)"

section \<open>\<open>detectComboClass\<close>\<close>

text \<open>Line 52: \<open>heuristicResult\<close>.\<close>

definition heuristic :: "string \<Rightarrow> bool" where
  "heuristic className = matchPrefix comboPattern className"

text \<open>
  Lines 54 to 67: the pair \<open>(apiResult, hasApiMethod)\<close>. \<open>apiResult\<close> starts out
  \<open>undefined\<close>; it is assigned only when the method exists, and the \<open>catch\<close> branch
  assigns \<open>null\<close>.
\<close>

definition fetchApiResult :: "Style \<Rightarrow> jsval \<times> bool" where
  "fetchApiResult style =
     (case isComboClass style of
        None \<Rightarrow> (JUndefined, False)
      | Some call \<Rightarrow>
          (case call of
             Resolves v \<Rightarrow> (v, True)
           | Rejects \<Rightarrow> (JNull, True)))"

definition externalSignal :: "Style \<Rightarrow> jsval" where
  "externalSignal style = fst (fetchApiResult style)"

text \<open>Line 70: \<open>preset?.comboDetectionPolicy ?? 'api-first'\<close>.\<close>

definition effectivePolicy :: "Preset option \<Rightarrow> ComboDetectionPolicy" where
  "effectivePolicy preset =
     (case preset of
        None \<Rightarrow> ApiFirst
      | Some p \<Rightarrow> (case comboDetectionPolicy p of None \<Rightarrow> ApiFirst | Some q \<Rightarrow> q))"

text \<open>
  Lines 44 to 97. The function is \<open>async\<close>: its result is a promise. The call of
  a custom policy on line 73 stands outside every \<open>try\<close>, so a policy that throws makes
  the promise reject. The \<open>default\<close> label of the \<open>switch\<close> shares the \<open>'api-first'\<close>
  branch.
\<close>

definition detectComboClass ::
  "Style \<Rightarrow> string \<Rightarrow> Preset option \<Rightarrow> ComboDetectionResult promise" where
  "detectComboClass style className preset =
     (let heuristicResult = heuristic className;
          (apiResult, hasApiMethod) = fetchApiResult style;
          policy = effectivePolicy preset
      in case policy of
           CustomPolicy f \<Rightarrow>
             (case f apiResult heuristicResult className of
                Returns result \<Rightarrow> Resolves \<lparr>isCombo = result, source = Policy\<rparr>
              | Throws \<Rightarrow> Rejects)
         | ApiOnly \<Rightarrow>
             Resolves \<lparr>isCombo = (apiResult = JBool True),
                       source = (if hasApiMethod then Api else Policy)\<rparr>
         | HeuristicOnly \<Rightarrow>
             Resolves \<lparr>isCombo = heuristicResult, source = Heuristic\<rparr>
         | _ \<Rightarrow>
             (case apiResult of
                JBool b \<Rightarrow> Resolves \<lparr>isCombo = b, source = Api\<rparr>
              | _ \<Rightarrow> Resolves \<lparr>isCombo = heuristicResult, source = Heuristic\<rparr>))"

section \<open>\<open>getAppliedStyles\<close>\<close>

text \<open>
  \<open>String.prototype.trim\<close> removes white space and line terminators from both ends.
  Among the code units below 256 these are U+0009 to U+000D, U+0020 and U+00A0.
\<close>

definition isWhiteSpace :: "char \<Rightarrow> bool" where
  "isWhiteSpace c =
     (c = CHR 0x09 \<or> c = CHR 0x0A \<or> c = CHR 0x0B \<or> c = CHR 0x0C \<or> c = CHR 0x0D
      \<or> c = CHR 0x20 \<or> c = CHR 0xA0)"

definition trim :: "string \<Rightarrow> string" where
  "trim s = rev (dropWhile isWhiteSpace (rev (dropWhile isWhiteSpace s)))"

definition startsWith :: "string \<Rightarrow> string \<Rightarrow> bool" where
  "startsWith s p = (take (length p) s = p)"

text \<open>The two locals the loop updates: \<open>seenIds\<close> and \<open>uniqueStyles\<close> (lines 206, 207).\<close>

record LoopState =
  seenIds :: "string set"
  uniqueStyles :: "StyleInfo list"

text \<open>
  Lines 211 to 246, one iteration for the style at index \<open>i\<close>. The body is one
  \<open>try\<close> block: when \<open>getName\<close> or \<open>detectComboClass\<close> rejects, the \<open>catch\<close> logs and
  the iteration ends with both locals unchanged. The inner \<open>try\<close> around
  \<open>getProperties\<close> keeps \<open>{}\<close> on a rejection.
\<close>

definition processStyle :: "Preset option \<Rightarrow> Style \<Rightarrow> nat \<Rightarrow> LoopState \<Rightarrow> LoopState" where
  "processStyle currentPreset style i st =
     (case getName style of
        Rejects \<Rightarrow> st
      | Resolves nm \<Rightarrow>
          (let trimmedName = (case nm of None \<Rightarrow> [] | Some n \<Rightarrow> trim n)
           in case detectComboClass style trimmedName currentPreset of
                Rejects \<Rightarrow> st
              | Resolves comboDetection \<Rightarrow>
                  if style_id style \<noteq> [] \<and> style_id style \<notin> seenIds st
                  then
                    (let props =
                           (if startsWith trimmedName ''u-''
                            then (case getProperties style of Resolves ps \<Rightarrow> ps | Rejects \<Rightarrow> [])
                            else [])
                     in \<lparr>seenIds = insert (style_id style) (seenIds st),
                         uniqueStyles = uniqueStyles st @
                           [\<lparr>info_id = style_id style,
                             name = trimmedName,
                             properties = props,
                             order = int i,
                             info_isCombo = isCombo comboDetection,
                             comboDetectionSource = Some (source comboDetection)\<rparr>]\<rparr>)
                  else st))"

text \<open>Line 210: \<open>for (let i = 0; i < appliedStyles.length; i++)\<close>, entered at \<open>i\<close>.\<close>

function forLoop :: "Preset option \<Rightarrow> Style list \<Rightarrow> nat \<Rightarrow> LoopState \<Rightarrow> LoopState" where
  "forLoop currentPreset appliedStyles i st =
     (if i < length appliedStyles
      then forLoop currentPreset appliedStyles (Suc i)
             (processStyle currentPreset (appliedStyles ! i) i st)
      else st)"
  by pat_completeness auto
termination
  by (relation "measure (\<lambda>(p, xs, i, st). length xs - i)") auto

declare forLoop.simps [simp del]

text \<open>
  Lines 176 to 250. \<open>presetLookup\<close> is the outcome of
  \<open>getPresetById(getCurrentPreset())\<close> (lines 198 to 204): both functions live outside
  this file; a throw leaves \<open>currentPreset\<close> undefined.
\<close>

definition getAppliedStyles :: "Element option \<Rightarrow> Preset option promise \<Rightarrow> StyleInfo list" where
  "getAppliedStyles element presetLookup =
     (case element of
        None \<Rightarrow> []
      | Some el \<Rightarrow>
          (case getStyles el of
             None \<Rightarrow> []
           | Some call \<Rightarrow>
               (case call of
                  Rejects \<Rightarrow> []
                | Resolves None \<Rightarrow> []
                | Resolves (Some appliedStyles) \<Rightarrow>
                    if appliedStyles = [] then []
                    else
                      (let currentPreset = (case presetLookup of Resolves p \<Rightarrow> p | Rejects \<Rightarrow> None)
                       in uniqueStyles
                            (forLoop currentPreset appliedStyles 0
                               \<lparr>seenIds = {}, uniqueStyles = []\<rparr>)))))"

section \<open>\<open>sortStylesByType\<close>\<close>

text \<open>Lines 298 to 303: the comparator passed to \<open>sort\<close>.\<close>

definition compareStyles :: "StyleInfo \<Rightarrow> StyleInfo \<Rightarrow> int" where
  "compareStyles a b =
     (let aIsCombo = (info_isCombo a = True);
          bIsCombo = (info_isCombo b = True)
      in if aIsCombo \<noteq> bIsCombo then (if aIsCombo then 1 else - 1)
         else order a - order b)"

text \<open>
  \<open>Array.prototype.sort\<close> is stable and, for a consistent comparator, leaves \<open>a\<close>
  before \<open>b\<close> unless \<open>compare(a, b) > 0\<close>; its result is then independent of the
  engine's algorithm. It is modelled by stable insertion sort.
\<close>

fun insertBy :: "('a \<Rightarrow> 'a \<Rightarrow> int) \<Rightarrow> 'a \<Rightarrow> 'a list \<Rightarrow> 'a list" where
  "insertBy cmp x [] = [x]"
| "insertBy cmp x (y # ys) = (if cmp x y \<le> 0 then x # y # ys else y # insertBy cmp x ys)"

definition sortBy :: "('a \<Rightarrow> 'a \<Rightarrow> int) \<Rightarrow> 'a list \<Rightarrow> 'a list" where
  "sortBy cmp xs = foldr (insertBy cmp) xs []"

text \<open>
  Arrays are objects, passed by reference and sorted in place. The store holds the
  arrays allocated so far; a reference is an index into it.
\<close>

type_synonym store = "StyleInfo list list"

text \<open>\<open>[...styles]\<close>: a fresh array with the elements of \<open>styles\<close>.\<close>

definition spread :: "store \<Rightarrow> nat \<Rightarrow> nat \<times> store" where
  "spread h a = (length h, h @ [h ! a])"

text \<open>\<open>arr.sort(cmp)\<close>: sorts the array in place and returns the same reference.\<close>

definition sortInPlace ::
  "(StyleInfo \<Rightarrow> StyleInfo \<Rightarrow> int) \<Rightarrow> store \<Rightarrow> nat \<Rightarrow> nat \<times> store" where
  "sortInPlace cmp h a = (a, h[a := sortBy cmp (h ! a)])"

text \<open>Lines 297 to 304; \<open>styles\<close> is a reference to an allocated array.\<close>

definition sortStylesByType :: "store \<Rightarrow> nat \<Rightarrow> nat \<times> store" where
  "sortStylesByType h styles =
     (let (copy, h1) = spread h styles
      in sortInPlace compareStyles h1 copy)"

section \<open>Notions used to state the properties\<close>

subsection \<open>The heuristic in words\<close>

text \<open>
  The alphanumeric characters and the uppercase letters, listed one by one, and the
  description of the heuristic: the name starts with \<open>is-\<close> or \<open>is_\<close> followed by an
  alphanumeric character, or with \<open>is\<close> followed by an uppercase letter.
\<close>

definition isAlnum :: "char \<Rightarrow> bool" where
  "isAlnum c = (c \<in> set ''ABCDEFGHIJKLMNOPQRSTUVWXYZabcdefghijklmnopqrstuvwxyz0123456789'')"

definition isUpper :: "char \<Rightarrow> bool" where
  "isUpper c = (c \<in> set ''ABCDEFGHIJKLMNOPQRSTUVWXYZ'')"

definition specHeuristic :: "string \<Rightarrow> bool" where
  "specHeuristic s =
     (((take 3 s = ''is-'' \<or> take 3 s = ''is_'') \<and> 3 < length s \<and> isAlnum (s ! 3))
      \<or> (take 2 s = ''is'' \<and> 2 < length s \<and> isUpper (s ! 2)))"

text \<open>A regular expression that no string matches; used in the proofs only.\<close>

fun dead :: "regex \<Rightarrow> bool" where
  "dead Zero = True"
| "dead (Seq r s) = (dead r \<or> dead s)"
| "dead (Alt r s) = (dead r \<and> dead s)"
| "dead _ = False"

subsection \<open>The external signal\<close>

text \<open>
  The signal is obtainable when the style has the method and the call resolves; a
  rejected call obtains nothing.
\<close>

definition signalObtainable :: "Style \<Rightarrow> bool" where
  "signalObtainable style =
     (case isComboClass style of
        None \<Rightarrow> False
      | Some call \<Rightarrow> (case call of Resolves v \<Rightarrow> True | Rejects \<Rightarrow> False))"

subsection \<open>Occurrences in the applied-styles list\<close>

text \<open>
  The array the loop of \<open>getAppliedStyles\<close> runs over: what \<open>element.getStyles()\<close>
  resolved to, and the empty array in every case that returns early.
\<close>

definition appliedStylesOf :: "Element option \<Rightarrow> Style list" where
  "appliedStylesOf element =
     (case element of
        None \<Rightarrow> []
      | Some el \<Rightarrow>
          (case getStyles el of
             None \<Rightarrow> []
           | Some call \<Rightarrow>
               (case call of
                  Rejects \<Rightarrow> []
                | Resolves None \<Rightarrow> []
                | Resolves (Some appliedStyles) \<Rightarrow> appliedStyles)))"

text \<open>
  The index of the first element that satisfies \<open>P\<close>, and the length of the list when
  there is none.
\<close>

fun firstIndex :: "('a \<Rightarrow> bool) \<Rightarrow> 'a list \<Rightarrow> nat" where
  "firstIndex P [] = 0"
| "firstIndex P (x # xs) = (if P x then 0 else Suc (firstIndex P xs))"

definition hasId :: "string \<Rightarrow> Style \<Rightarrow> bool" where
  "hasId ident s = (style_id s = ident)"

definition nameFetched :: "Style \<Rightarrow> bool" where
  "nameFetched s = (case getName s of Resolves n \<Rightarrow> True | Rejects \<Rightarrow> False)"

text \<open>
  The class name an iteration passes to \<open>detectComboClass\<close>, and whether that call
  rejects. A style is processed when its name is fetched and the detection does not
  reject: these are the iterations that reach line 222.
\<close>

definition trimmedNameOf :: "Style \<Rightarrow> string" where
  "trimmedNameOf s =
     (case getName s of
        Rejects \<Rightarrow> []
      | Resolves nm \<Rightarrow> (case nm of None \<Rightarrow> [] | Some n \<Rightarrow> trim n))"

definition detectionFails :: "Preset option \<Rightarrow> Style \<Rightarrow> bool" where
  "detectionFails currentPreset s =
     (case detectComboClass s (trimmedNameOf s) currentPreset of
        Resolves r \<Rightarrow> False
      | Rejects \<Rightarrow> True)"

definition styleProcessed :: "Preset option \<Rightarrow> Style \<Rightarrow> bool" where
  "styleProcessed currentPreset s = (nameFetched s \<and> \<not> detectionFails currentPreset s)"

definition usableWithId :: "Preset option \<Rightarrow> string \<Rightarrow> Style \<Rightarrow> bool" where
  "usableWithId currentPreset ident s = (hasId ident s \<and> styleProcessed currentPreset s)"

text \<open>Lines 198 to 204: the preset the loop runs with.\<close>

definition currentPresetOf :: "Preset option promise \<Rightarrow> Preset option" where
  "currentPresetOf presetLookup = (case presetLookup of Resolves p \<Rightarrow> p | Rejects \<Rightarrow> None)"

text \<open>
  The invariant of the loop before the iteration at index \<open>i\<close>: \<open>seenIds\<close> holds the
  ids of \<open>uniqueStyles\<close>, which are distinct and not empty; every entry carries the index
  of the first style of its id that was processed; and every processed style before \<open>i\<close>
  that has an id has been seen.
\<close>

definition loopInv :: "Preset option \<Rightarrow> Style list \<Rightarrow> nat \<Rightarrow> LoopState \<Rightarrow> bool" where
  "loopInv p styles i st =
     (seenIds st = info_id ` set (uniqueStyles st)
      \<and> distinct (map info_id (uniqueStyles st))
      \<and> (\<forall>r \<in> set (uniqueStyles st).
            info_id r \<noteq> []
            \<and> firstIndex (usableWithId p (info_id r)) styles < i
            \<and> order r = int (firstIndex (usableWithId p (info_id r)) styles))
      \<and> (\<forall>j<i. styleProcessed p (styles ! j) \<and> style_id (styles ! j) \<noteq> []
             \<longrightarrow> style_id (styles ! j) \<in> seenIds st))"

subsection \<open>The order the comparator induces\<close>

definition notCombo :: "StyleInfo \<Rightarrow> bool" where
  "notCombo s = (info_isCombo s \<noteq> True)"

definition comesBefore :: "StyleInfo \<Rightarrow> StyleInfo \<Rightarrow> bool" where
  "comesBefore a b = (compareStyles a b \<le> 0)"

subsection \<open>Concrete inputs\<close>

text \<open>
  Style objects as \<open>createMockStyle\<close> of the test suite builds them, a style whose
  \<open>getName\<close> rejects, a preset that sets a policy, and an element with given styles.
\<close>

definition mockStyle :: "string \<Rightarrow> string \<Rightarrow> jsval promise option \<Rightarrow> Style" where
  "mockStyle i n api =
     \<lparr>style_id = i, getName = Resolves (Some n), getProperties = Resolves [], isComboClass = api\<rparr>"

definition failingStyle :: "string \<Rightarrow> Style" where
  "failingStyle i =
     \<lparr>style_id = i, getName = Rejects, getProperties = Resolves [], isComboClass = None\<rparr>"

definition throwingPolicy :: "jsval \<Rightarrow> bool \<Rightarrow> string \<Rightarrow> bool outcome" where
  "throwingPolicy apiResult heuristicResult className = Throws"

definition withPolicy :: "ComboDetectionPolicy \<Rightarrow> Preset" where
  "withPolicy q = \<lparr>preset_id = ''test-preset'', comboDetectionPolicy = Some q\<rparr>"

definition elementWith :: "Style list \<Rightarrow> Element option" where
  "elementWith styles = Some \<lparr>getStyles = Some (Resolves (Some styles))\<rparr>"

definition retriedStyles :: "Style list" where
  "retriedStyles = [failingStyle ''a'', mockStyle ''a'' ''card'' None]"

definition repeatedStyles :: "Style list" where
  "repeatedStyles =
     [mockStyle ''a'' ''card'' None,
      mockStyle ''b'' '' is-active '' (Some (Resolves (JBool True))),
      mockStyle ''a'' ''card'' None]"

definition cardInfo :: "int \<Rightarrow> StyleInfo" where
  "cardInfo i =
     \<lparr>info_id = ''a'', name = ''card'', properties = [], order = i, info_isCombo = False,
       comboDetectionSource = Some Heuristic\<rparr>"

definition info :: "string \<Rightarrow> int \<Rightarrow> bool \<Rightarrow> StyleInfo" where
  "info i n c =
     \<lparr>info_id = i, name = i, properties = [], order = n, info_isCombo = c,
       comboDetectionSource = Some Api\<rparr>"

definition mixedStore :: store where
  "mixedStore =
     [[info ''d'' 3 True, info ''c'' 2 False, info ''b'' 1 True, info ''a'' 0 False]]"

section \<open>The combo heuristic\<close>

lemma dead_not_nullable: "dead r \<Longrightarrow> \<not> nullable r"
  by (induction r) auto

lemma dead_deriv: "dead r \<Longrightarrow> dead (deriv c r)"
  by (induction r) (auto simp: dead_not_nullable)

lemma dead_no_match: "dead r \<Longrightarrow> \<not> matchPrefix r s"
  by (induction s arbitrary: r) (auto simp: dead_not_nullable dead_deriv)

lemma nullable_match: "nullable r \<Longrightarrow> matchPrefix r s"
  by (cases s) simp_all

lemma alnum_ranges:
  "inClass c [(CHR ''A'', CHR ''Z''), (CHR ''a'', CHR ''z''), (CHR ''0'', CHR ''9'')] = isAlnum c"
  by (cases c) (simp add: inClass_def inRange_def isAlnum_def)

lemma upper_ranges: "inClass c [(CHR ''A'', CHR ''Z'')] = isUpper c"
  by (cases c) (simp add: inClass_def inRange_def isUpper_def)

lemma matchPrefix_combo_4:
  "matchPrefix comboPattern (c1 # c2 # c3 # c4 # rest) =
     (c1 = CHR ''i'' \<and> c2 = CHR ''s'' \<and>
       (((c3 = CHR ''-'' \<or> c3 = CHR ''_'') \<and> isAlnum c4) \<or> isUpper c3))"
  unfolding comboPattern_def alnumClass_def
  by (simp add: alnum_ranges upper_ranges dead_no_match nullable_match)

lemma heuristic_spec: "heuristic s = specHeuristic s"
proof (cases s)
  case Nil
  then show ?thesis
    by (simp add: heuristic_def specHeuristic_def comboPattern_def alnumClass_def)
next
  case c1: (Cons c1 s1)
  show ?thesis
  proof (cases s1)
    case Nil
    with c1 show ?thesis
      by (simp add: heuristic_def specHeuristic_def comboPattern_def alnumClass_def)
  next
    case c2: (Cons c2 s2)
    show ?thesis
    proof (cases s2)
      case Nil
      with c1 c2 show ?thesis
        by (simp add: heuristic_def specHeuristic_def comboPattern_def alnumClass_def)
    next
      case c3: (Cons c3 s3)
      show ?thesis
      proof (cases s3)
        case Nil
        with c1 c2 c3 show ?thesis
          by (auto simp add: heuristic_def specHeuristic_def comboPattern_def alnumClass_def
              upper_ranges)
      next
        case c4: (Cons c4 s4)
        with c1 c2 c3 show ?thesis
          by (auto simp add: heuristic_def specHeuristic_def matchPrefix_combo_4
              simp del: matchPrefix.simps)
      qed
    qed
  qed
qed

lemma heuristic_examples:
  "heuristic ''is-active'' \<and> heuristic ''is_visible'' \<and> heuristic ''isActive''
   \<and> heuristic ''is-1234'' \<and> \<not> heuristic ''is-'' \<and> \<not> heuristic ''is1234''
   \<and> \<not> heuristic ''component-card''"
  by (simp add: heuristic_def comboPattern_def alnumClass_def inClass_def inRange_def)

text \<open>
  C2. For every class name, the regular expression of line 52 accepts it exactly when
  it starts with \<open>is-\<close> or \<open>is_\<close> followed by an alphanumeric character, or with \<open>is\<close>
  followed by an uppercase letter. The names \<open>is-active\<close>, \<open>is_visible\<close>, \<open>isActive\<close>
  and \<open>is-1234\<close> are accepted; \<open>is-\<close>, \<open>is1234\<close> and \<open>component-card\<close> are not.
\<close>

theorem C2_heuristic_exact:
  "heuristic s = specHeuristic s
   \<and> heuristic ''is-active'' \<and> heuristic ''is_visible'' \<and> heuristic ''isActive''
   \<and> heuristic ''is-1234'' \<and> \<not> heuristic ''is-'' \<and> \<not> heuristic ''is1234''
   \<and> \<not> heuristic ''component-card''"
  using heuristic_spec [of s] heuristic_examples by simp

section \<open>The detection policies\<close>

lemma fetch_cases: "fetchApiResult style = (externalSignal style, isComboClass style \<noteq> None)"
  by (simp add: fetchApiResult_def externalSignal_def split: option.splits promise.splits)

lemma detect_rejects_iff:
  "(detectComboClass style className preset = Rejects) =
     (\<exists>f. effectivePolicy preset = CustomPolicy f
          \<and> f (externalSignal style) (heuristic className) className = Throws)"
  by (cases "effectivePolicy preset"; cases "externalSignal style")
     (simp_all add: detectComboClass_def fetch_cases split: outcome.splits)

lemma signal_rejects: "fetchApiResult (style\<lparr>isComboClass := Some Rejects\<rparr>) = (JNull, True)"
  by (simp add: fetchApiResult_def)

lemma signal_resolves: "fetchApiResult (style\<lparr>isComboClass := Some (Resolves v)\<rparr>) = (v, True)"
  by (simp add: fetchApiResult_def)

text \<open>
  C1, as the code has it. Under \<open>'api-only'\<close> the result is a combo exactly when the
  external signal is the boolean \<open>true\<close>, so \<open>null\<close>, \<open>undefined\<close> and a missing method
  give \<open>false\<close>. The source is \<open>"api"\<close> whenever the style has an \<open>isComboClass\<close> method,
  whatever the call did, and \<open>"policy"\<close> when it has none.
\<close>

theorem C1_api_only:
  "detectComboClass style className (Some (p\<lparr>comboDetectionPolicy := Some ApiOnly\<rparr>)) =
     Resolves \<lparr>isCombo = (externalSignal style = JBool True),
               source = (if isComboClass style = None then Policy else Api)\<rparr>"
  by (simp add: detectComboClass_def effectivePolicy_def fetch_cases)

text \<open>
  C1 as stated fails for a style whose \<open>isComboClass\<close> call rejects: no signal was
  obtained, yet \<open>hasApiMethod\<close> is already set and the source reported is \<open>"api"\<close>, not
  \<open>"policy"\<close>.
\<close>

theorem C1_rejecting_call_reports_api:
  "signalObtainable (mockStyle ''1'' ''is-error'' (Some Rejects)) = False
   \<and> detectComboClass (mockStyle ''1'' ''is-error'' (Some Rejects)) ''is-error''
         (Some (withPolicy ApiOnly))
       = Resolves \<lparr>isCombo = False, source = Api\<rparr>
   \<and> detectComboClass (mockStyle ''1'' ''is-error'' (Some Rejects)) ''is-error''
         (Some (withPolicy ApiOnly))
       \<noteq> Resolves \<lparr>isCombo = False, source = Policy\<rparr>"
  by (simp add: detectComboClass_def effectivePolicy_def fetchApiResult_def withPolicy_def
      mockStyle_def signalObtainable_def)

text \<open>
  C3. Under \<open>'api-first'\<close> the result is the external signal with source \<open>"api"\<close> when
  the signal is a boolean, and the heuristic with source \<open>"heuristic"\<close> when it is
  \<open>null\<close> or \<open>undefined\<close>. A policy value that is none of the known ones behaves as
  \<open>'api-first'\<close>.
\<close>

theorem C3_api_first:
  "detectComboClass style className (Some (p\<lparr>comboDetectionPolicy := Some ApiFirst\<rparr>)) =
     Resolves (case externalSignal style of
                 JBool b \<Rightarrow> \<lparr>isCombo = b, source = Api\<rparr>
               | JNull \<Rightarrow> \<lparr>isCombo = heuristic className, source = Heuristic\<rparr>
               | JUndefined \<Rightarrow> \<lparr>isCombo = heuristic className, source = Heuristic\<rparr>)
   \<and> detectComboClass style className
         (Some (p\<lparr>comboDetectionPolicy := Some (UnrecognizedPolicy v)\<rparr>)) =
       detectComboClass style className (Some (p\<lparr>comboDetectionPolicy := Some ApiFirst\<rparr>))"
  by (simp add: detectComboClass_def effectivePolicy_def fetch_cases split: jsval.splits)

text \<open>
  C4. A custom policy function is applied to the external signal, the heuristic result
  and the class name, in this order. When it returns, its value is the result, with
  source \<open>"policy"\<close>; this covers every function that always returns. When it throws,
  the promise rejects.
\<close>

theorem C4_custom_policy:
  "detectComboClass style className
       (Some (p\<lparr>comboDetectionPolicy := Some (CustomPolicy (\<lambda>a h c. Returns (g a h c)))\<rparr>)) =
     Resolves \<lparr>isCombo = g (externalSignal style) (heuristic className) className,
               source = Policy\<rparr>
   \<and> detectComboClass style className
       (Some (p\<lparr>comboDetectionPolicy := Some (CustomPolicy f)\<rparr>)) =
     (case f (externalSignal style) (heuristic className) className of
        Returns b \<Rightarrow> Resolves \<lparr>isCombo = b, source = Policy\<rparr>
      | Throws \<Rightarrow> Rejects)"
  by (simp add: detectComboClass_def effectivePolicy_def fetch_cases)

text \<open>
  C5. Under \<open>'heuristic-only'\<close> the result is the heuristic with source \<open>"heuristic"\<close>,
  for every style, so for every external signal.
\<close>

theorem C5_heuristic_only:
  "detectComboClass style className (Some (p\<lparr>comboDetectionPolicy := Some HeuristicOnly\<rparr>)) =
     Resolves \<lparr>isCombo = heuristic className, source = Heuristic\<rparr>"
  by (simp add: detectComboClass_def effectivePolicy_def fetch_cases)

text \<open>
  C6, as the code has it. A rejected \<open>isComboClass\<close> call leaves \<open>apiResult = null\<close>,
  and detection then gives what it gives for a call that resolved to \<open>null\<close>, under
  every preset. The promise that \<open>detectComboClass\<close> returns rejects in one case only:
  the policy is a custom function and that function throws for the signal, the
  heuristic result and the class name. In every other case it resolves.
\<close>

theorem C6_failure_is_null:
  "externalSignal (style\<lparr>isComboClass := Some Rejects\<rparr>) = JNull
   \<and> detectComboClass (style\<lparr>isComboClass := Some Rejects\<rparr>) className preset =
       detectComboClass (style\<lparr>isComboClass := Some (Resolves JNull)\<rparr>) className preset
   \<and> (detectComboClass style className preset = Rejects) =
       (\<exists>f. effectivePolicy preset = CustomPolicy f
            \<and> f (externalSignal style) (heuristic className) className = Throws)"
proof (intro conjI)
  show "externalSignal (style\<lparr>isComboClass := Some Rejects\<rparr>) = JNull"
    by (simp add: externalSignal_def signal_rejects)
  show "detectComboClass (style\<lparr>isComboClass := Some Rejects\<rparr>) className preset =
        detectComboClass (style\<lparr>isComboClass := Some (Resolves JNull)\<rparr>) className preset"
    by (simp add: detectComboClass_def signal_rejects signal_resolves)
  show "(detectComboClass style className preset = Rejects) =
       (\<exists>f. effectivePolicy preset = CustomPolicy f
            \<and> f (externalSignal style) (heuristic className) className = Throws)"
    by (rule detect_rejects_iff)
qed

text \<open>
  C6 as stated fails for a custom policy that throws: the call on line 73 is not
  guarded, and the promise rejects although the external signal was obtained.
\<close>

theorem C6_throwing_policy_rejects:
  "detectComboClass (mockStyle ''1'' ''is-active'' (Some (Resolves (JBool True)))) ''is-active''
       (Some (withPolicy (CustomPolicy throwingPolicy)))
     = Rejects"
  by (simp add: detectComboClass_def effectivePolicy_def fetchApiResult_def withPolicy_def
      mockStyle_def throwingPolicy_def)

text \<open>
  C7. Without a preset, and with a preset that defines no policy, detection is what it
  is under \<open>'api-first'\<close>. A preset lookup that throws leaves \<open>getAppliedStyles\<close>
  with no preset.
\<close>

theorem C7_default_policy:
  "detectComboClass style className None =
     detectComboClass style className (Some (p\<lparr>comboDetectionPolicy := Some ApiFirst\<rparr>))
   \<and> detectComboClass style className (Some (p\<lparr>comboDetectionPolicy := None\<rparr>)) =
     detectComboClass style className (Some (p\<lparr>comboDetectionPolicy := Some ApiFirst\<rparr>))
   \<and> getAppliedStyles element Rejects = getAppliedStyles element (Resolves None)"
  by (simp add: detectComboClass_def effectivePolicy_def getAppliedStyles_def
      split: option.splits promise.splits)

text \<open>
  C8. Two styles whose external signal resolved to the same boolean or \<open>null\<close> get the
  same result for the same class name and the same preset.
\<close>

theorem C8_deterministic:
  assumes "externalSignal s1 = externalSignal s2" and "externalSignal s1 \<noteq> JUndefined"
  shows "detectComboClass s1 className preset = detectComboClass s2 className preset"
proof -
  have "isComboClass s1 \<noteq> None" "isComboClass s2 \<noteq> None"
    using assms by (auto simp: externalSignal_def fetchApiResult_def split: option.splits)
  with assms(1) show ?thesis
    by (simp add: detectComboClass_def fetch_cases)
qed

text \<open>
  C8 at two different styles, one whose call rejects and one whose call resolves to
  \<open>null\<close>, under \<open>'api-only'\<close>.
\<close>

theorem C8_deterministic_witness:
  "externalSignal (mockStyle ''1'' ''is-a'' (Some Rejects))
     = externalSignal (mockStyle ''2'' ''b'' (Some (Resolves JNull)))
   \<and> externalSignal (mockStyle ''1'' ''is-a'' (Some Rejects)) \<noteq> JUndefined
   \<and> detectComboClass (mockStyle ''1'' ''is-a'' (Some Rejects)) ''is-a''
         (Some (withPolicy ApiOnly))
       = detectComboClass (mockStyle ''2'' ''b'' (Some (Resolves JNull))) ''is-a''
           (Some (withPolicy ApiOnly))"
proof -
  have a: "externalSignal (mockStyle ''1'' ''is-a'' (Some Rejects))
             = externalSignal (mockStyle ''2'' ''b'' (Some (Resolves JNull)))"
    by (simp add: externalSignal_def fetchApiResult_def mockStyle_def)
  have b: "externalSignal (mockStyle ''1'' ''is-a'' (Some Rejects)) \<noteq> JUndefined"
    by (simp add: externalSignal_def fetchApiResult_def mockStyle_def)
  from C8_deterministic [OF a b] a b show ?thesis by simp
qed

section \<open>Applied styles\<close>

lemma firstIndex_eq:
  "i < length xs \<Longrightarrow> P (xs ! i) \<Longrightarrow> (\<forall>j<i. \<not> P (xs ! j)) \<Longrightarrow> firstIndex P xs = i"
proof (induction xs arbitrary: i)
  case Nil
  then show ?case by simp
next
  case (Cons x xs)
  show ?case
  proof (cases i)
    case 0
    with Cons.prems show ?thesis by simp
  next
    case (Suc k)
    with Cons.prems have "\<not> P x" by auto
    moreover have "firstIndex P xs = k"
    proof (rule Cons.IH)
      show "k < length xs" using Cons.prems Suc by simp
      show "P (xs ! k)" using Cons.prems Suc by simp
      show "\<forall>j<k. \<not> P (xs ! j)"
      proof (intro allI impI)
        fix j assume "j < k"
        then have "Suc j < i" using Suc by simp
        with Cons.prems(3) have "\<not> P ((x # xs) ! Suc j)" by blast
        then show "\<not> P (xs ! j)" by simp
      qed
    qed
    ultimately show ?thesis using Suc by simp
  qed
qed

lemma firstIndex_cong:
  "(\<And>x. x \<in> set xs \<Longrightarrow> P x = Q x) \<Longrightarrow> firstIndex P xs = firstIndex Q xs"
  by (induction xs) auto

lemma processStyle_cases:
  "(processStyle p s i st = st \<and> (styleProcessed p s \<and> style_id s \<noteq> [] \<longrightarrow> style_id s \<in> seenIds st))
   \<or> (\<exists>r. processStyle p s i st =
           \<lparr>seenIds = insert (style_id s) (seenIds st), uniqueStyles = uniqueStyles st @ [r]\<rparr>
         \<and> info_id r = style_id s \<and> order r = int i
         \<and> styleProcessed p s \<and> style_id s \<noteq> [] \<and> style_id s \<notin> seenIds st)"
proof (cases "getName s")
  case Rejects
  then show ?thesis
    by (simp add: processStyle_def styleProcessed_def nameFetched_def)
next
  case (Resolves nm)
  then have tn: "trimmedNameOf s = (case nm of None \<Rightarrow> [] | Some n \<Rightarrow> trim n)"
    by (simp add: trimmedNameOf_def)
  show ?thesis
  proof (cases "detectComboClass s (trimmedNameOf s) p")
    case Rejects
    then show ?thesis
      using Resolves tn
      by (simp add: processStyle_def styleProcessed_def detectionFails_def)
  next
    case (Resolves cd)
    then show ?thesis
      using \<open>getName s = Resolves nm\<close> tn
      by (simp add: processStyle_def styleProcessed_def detectionFails_def nameFetched_def
          Let_def)
  qed
qed

lemma firstIndex_le: "firstIndex P xs \<le> length xs"
  by (induction xs) auto

lemma firstIndex_holds: "firstIndex P xs < length xs \<Longrightarrow> P (xs ! firstIndex P xs)"
  by (induction xs) (auto split: if_splits)

lemma loopInv_step:
  assumes i: "i < length styles" and inv: "loopInv p styles i st"
  shows "loopInv p styles (Suc i) (processStyle p (styles ! i) i st)"
proof -
  let ?s = "styles ! i"
  from inv have seen: "seenIds st = info_id ` set (uniqueStyles st)"
    and dist: "distinct (map info_id (uniqueStyles st))"
    and ord: "\<And>r. r \<in> set (uniqueStyles st) \<Longrightarrow>
            info_id r \<noteq> [] \<and> firstIndex (usableWithId p (info_id r)) styles < i
            \<and> order r = int (firstIndex (usableWithId p (info_id r)) styles)"
    and cov: "\<And>j. j < i \<Longrightarrow> styleProcessed p (styles ! j) \<Longrightarrow> style_id (styles ! j) \<noteq> []
            \<Longrightarrow> style_id (styles ! j) \<in> seenIds st"
    by (auto simp: loopInv_def)
  from processStyle_cases [of p ?s i st] show ?thesis
  proof (elim disjE conjE exE)
    assume same: "processStyle p ?s i st = st"
      and here: "styleProcessed p ?s \<and> style_id ?s \<noteq> [] \<longrightarrow> style_id ?s \<in> seenIds st"
    have "\<And>j. j < Suc i \<Longrightarrow> styleProcessed p (styles ! j) \<Longrightarrow> style_id (styles ! j) \<noteq> []
            \<Longrightarrow> style_id (styles ! j) \<in> seenIds st"
      using cov here less_Suc_eq by auto
    moreover have "\<And>r. r \<in> set (uniqueStyles st) \<Longrightarrow>
            firstIndex (usableWithId p (info_id r)) styles < Suc i"
      using ord less_Suc_eq by blast
    ultimately show ?thesis
      unfolding loopInv_def same using seen dist ord by blast
  next
    fix r
    assume upd: "processStyle p ?s i st =
           \<lparr>seenIds = insert (style_id ?s) (seenIds st), uniqueStyles = uniqueStyles st @ [r]\<rparr>"
      and rid: "info_id r = style_id ?s" and rord: "order r = int i"
      and fetched: "styleProcessed p ?s" and nonempty: "style_id ?s \<noteq> []"
      and fresh: "style_id ?s \<notin> seenIds st"
    have first: "firstIndex (usableWithId p (style_id ?s)) styles = i"
    proof (rule firstIndex_eq [OF i])
      show "usableWithId p (style_id ?s) ?s"
        using fetched by (simp add: usableWithId_def hasId_def)
      show "\<forall>j<i. \<not> usableWithId p (style_id ?s) (styles ! j)"
      proof (intro allI impI notI)
        fix j assume "j < i" and u: "usableWithId p (style_id ?s) (styles ! j)"
        then have "style_id (styles ! j) \<in> seenIds st"
          using cov [of j] nonempty by (simp add: usableWithId_def hasId_def)
        with u fresh show False by (simp add: usableWithId_def hasId_def)
      qed
    qed
    have c1: "insert (style_id ?s) (seenIds st) = info_id ` set (uniqueStyles st @ [r])"
      using seen rid by auto
    have c2: "distinct (map info_id (uniqueStyles st @ [r]))"
      using dist fresh seen rid by auto
    have c3: "\<forall>q \<in> set (uniqueStyles st @ [r]).
            info_id q \<noteq> []
            \<and> firstIndex (usableWithId p (info_id q)) styles < Suc i
            \<and> order q = int (firstIndex (usableWithId p (info_id q)) styles)"
    proof
      fix q assume "q \<in> set (uniqueStyles st @ [r])"
      then consider "q \<in> set (uniqueStyles st)" | "q = r" by auto
      then show "info_id q \<noteq> []
            \<and> firstIndex (usableWithId p (info_id q)) styles < Suc i
            \<and> order q = int (firstIndex (usableWithId p (info_id q)) styles)"
      proof cases
        case 1
        with ord [of q] show ?thesis by simp
      next
        case 2
        with rid rord nonempty first show ?thesis by simp
      qed
    qed
    have c4: "\<forall>j<Suc i. styleProcessed p (styles ! j) \<and> style_id (styles ! j) \<noteq> []
             \<longrightarrow> style_id (styles ! j) \<in> insert (style_id ?s) (seenIds st)"
      using cov less_Suc_eq by auto
    show ?thesis
      unfolding loopInv_def upd using c1 c2 c3 c4 by simp
  qed
qed

lemma loopInv_forLoop:
  "loopInv p styles i st \<Longrightarrow> i \<le> length styles \<Longrightarrow>
     loopInv p styles (length styles) (forLoop p styles i st)"
proof (induction p styles i st rule: forLoop.induct)
  case (1 p styles i st)
  show ?case
  proof (cases "i < length styles")
    case True
    have "loopInv p styles (Suc i) (processStyle p (styles ! i) i st)"
      using True "1.prems"(1) by (rule loopInv_step)
    with True "1.IH" show ?thesis
      by (simp add: forLoop.simps [of p styles i])
  next
    case False
    with "1.prems" have "i = length styles" by simp
    with "1.prems"(1) show ?thesis
      by (simp add: forLoop.simps [of p styles "length styles"])
  qed
qed

lemma loopInv_init: "loopInv p styles 0 \<lparr>seenIds = {}, uniqueStyles = []\<rparr>"
  by (simp add: loopInv_def)

lemma getAppliedStyles_loop:
  "getAppliedStyles element lookup =
     uniqueStyles (forLoop (currentPresetOf lookup) (appliedStylesOf element) 0
                     \<lparr>seenIds = {}, uniqueStyles = []\<rparr>)"
  by (auto simp: getAppliedStyles_def appliedStylesOf_def currentPresetOf_def
      forLoop.simps [of _ "[]"] Let_def split: option.splits promise.splits)

lemma getAppliedStyles_inv:
  "\<exists>st. getAppliedStyles element lookup = uniqueStyles st
      \<and> loopInv (currentPresetOf lookup) (appliedStylesOf element)
            (length (appliedStylesOf element)) st"
proof -
  have "loopInv (currentPresetOf lookup) (appliedStylesOf element)
     (length (appliedStylesOf element))
     (forLoop (currentPresetOf lookup) (appliedStylesOf element) 0
        \<lparr>seenIds = {}, uniqueStyles = []\<rparr>)"
    by (rule loopInv_forLoop [OF loopInv_init]) simp
  then show ?thesis using getAppliedStyles_loop by blast
qed

lemma styleProcessed_iff:
  "styleProcessed p s =
     (nameFetched s \<and>
      \<not> (\<exists>f. effectivePolicy p = CustomPolicy f
             \<and> f (externalSignal s) (heuristic (trimmedNameOf s)) (trimmedNameOf s) = Throws))"
  using detect_rejects_iff [of s "trimmedNameOf s" p]
  by (cases "detectComboClass s (trimmedNameOf s) p")
     (simp_all add: styleProcessed_def detectionFails_def)

text \<open>
  C9, as the code has it. A style is processed when its \<open>getName\<close> call resolves and
  the combo detection for it does not reject. The ids of the result are distinct and not
  empty. Each entry's \<open>order\<close> is the index, in the element's applied-styles list, of
  the first processed style of that id; when every style of the list is processed this
  is the first occurrence of the id, so a later duplicate never appears. The ids
  returned are the ids, other than the empty one, of the processed styles.
\<close>

theorem C9_first_processed_occurrence_wins:
  "distinct (map info_id (getAppliedStyles element lookup))
   \<and> (\<forall>r \<in> set (getAppliedStyles element lookup).
         info_id r \<noteq> []
         \<and> firstIndex (usableWithId (currentPresetOf lookup) (info_id r)) (appliedStylesOf element)
             < length (appliedStylesOf element)
         \<and> order r =
             int (firstIndex (usableWithId (currentPresetOf lookup) (info_id r))
                    (appliedStylesOf element)))
   \<and> ((\<forall>s \<in> set (appliedStylesOf element). styleProcessed (currentPresetOf lookup) s) \<longrightarrow>
        (\<forall>r \<in> set (getAppliedStyles element lookup).
           order r = int (firstIndex (hasId (info_id r)) (appliedStylesOf element))))
   \<and> info_id ` set (getAppliedStyles element lookup) =
        style_id ` {s \<in> set (appliedStylesOf element).
                     styleProcessed (currentPresetOf lookup) s \<and> style_id s \<noteq> []}"
proof -
  let ?styles = "appliedStylesOf element"
  define p where "p = currentPresetOf lookup"
  obtain st where res: "getAppliedStyles element lookup = uniqueStyles st"
    and inv: "loopInv p ?styles (length ?styles) st"
    unfolding p_def using getAppliedStyles_inv by blast
  have d: "distinct (map info_id (uniqueStyles st))"
    using inv by (simp add: loopInv_def)
  have o: "\<forall>r \<in> set (uniqueStyles st).
         info_id r \<noteq> []
         \<and> firstIndex (usableWithId p (info_id r)) ?styles < length ?styles
         \<and> order r = int (firstIndex (usableWithId p (info_id r)) ?styles)"
    using inv by (simp add: loopInv_def)
  have f: "(\<forall>s \<in> set ?styles. styleProcessed p s) \<longrightarrow>
        (\<forall>r \<in> set (uniqueStyles st). order r = int (firstIndex (hasId (info_id r)) ?styles))"
  proof (intro impI ballI)
    fix r assume all: "\<forall>s \<in> set ?styles. styleProcessed p s" and r: "r \<in> set (uniqueStyles st)"
    have "firstIndex (usableWithId p (info_id r)) ?styles = firstIndex (hasId (info_id r)) ?styles"
      by (rule firstIndex_cong) (simp add: usableWithId_def all)
    with o r show "order r = int (firstIndex (hasId (info_id r)) ?styles)" by simp
  qed
  have seen: "seenIds st = info_id ` set (uniqueStyles st)"
    using inv by (simp add: loopInv_def)
  have cov: "\<forall>j<length ?styles. styleProcessed p (?styles ! j) \<and> style_id (?styles ! j) \<noteq> []
             \<longrightarrow> style_id (?styles ! j) \<in> seenIds st"
    using inv unfolding loopInv_def by blast
  have e: "info_id ` set (uniqueStyles st) =
        style_id ` {s \<in> set ?styles. styleProcessed p s \<and> style_id s \<noteq> []}"
  proof (intro equalityI subsetI)
    fix x assume "x \<in> info_id ` set (uniqueStyles st)"
    then obtain r where r: "r \<in> set (uniqueStyles st)" and x: "x = info_id r" by blast
    let ?k = "firstIndex (usableWithId p x) ?styles"
    from o r x have ne: "x \<noteq> []" and k: "?k < length ?styles" by auto
    from firstIndex_holds [OF k] have "usableWithId p x (?styles ! ?k)" .
    then have "style_id (?styles ! ?k) = x" "styleProcessed p (?styles ! ?k)"
      by (simp_all add: usableWithId_def hasId_def)
    with ne k show "x \<in> style_id ` {s \<in> set ?styles. styleProcessed p s \<and> style_id s \<noteq> []}"
      by (metis (mono_tags, lifting) image_eqI mem_Collect_eq nth_mem)
  next
    fix x assume "x \<in> style_id ` {s \<in> set ?styles. styleProcessed p s \<and> style_id s \<noteq> []}"
    then obtain s where s: "s \<in> set ?styles" "styleProcessed p s" "style_id s \<noteq> []"
      and x: "x = style_id s" by blast
    from s(1) obtain j where "j < length ?styles" "?styles ! j = s"
      by (auto simp: in_set_conv_nth)
    with cov s have "style_id s \<in> seenIds st" by blast
    with seen x show "x \<in> info_id ` set (uniqueStyles st)" by simp
  qed
  from d o f e show ?thesis unfolding res p_def [symmetric] by blast
qed

lemma eval_repeated:
  "getAppliedStyles (elementWith repeatedStyles) (Resolves None) =
     [cardInfo 0,
      \<lparr>info_id = ''b'', name = ''is-active'', properties = [], order = 1, info_isCombo = True,
        comboDetectionSource = Some Api\<rparr>]"
  by (simp add: getAppliedStyles_def elementWith_def repeatedStyles_def forLoop.simps
      processStyle_def mockStyle_def detectComboClass_def fetchApiResult_def
      effectivePolicy_def heuristic_def comboPattern_def alnumClass_def trim_def isWhiteSpace_def
      startsWith_def cardInfo_def inClass_def inRange_def)

lemma repeated_processed:
  "\<forall>s \<in> set repeatedStyles. styleProcessed (currentPresetOf (Resolves None)) s"
  by (simp add: styleProcessed_iff repeatedStyles_def nameFetched_def mockStyle_def
      currentPresetOf_def effectivePolicy_def)

text \<open>
  C9 at an element whose styles have the ids \<open>a\<close>, \<open>b\<close>, \<open>a\<close> and are all processed:
  the entry for \<open>a\<close> has order 0, the index of its first occurrence.
\<close>

theorem C9_first_processed_occurrence_wins_witness:
  "cardInfo 0 \<in> set (getAppliedStyles (elementWith repeatedStyles) (Resolves None))
   \<and> list_all (styleProcessed (currentPresetOf (Resolves None)))
         (appliedStylesOf (elementWith repeatedStyles))
   \<and> order (cardInfo 0) = int (firstIndex (hasId ''a'') repeatedStyles)
   \<and> firstIndex (hasId ''a'') repeatedStyles = 0
   \<and> distinct (map info_id (getAppliedStyles (elementWith repeatedStyles) (Resolves None)))"
proof -
  let ?res = "getAppliedStyles (elementWith repeatedStyles) (Resolves None)"
  have styles: "appliedStylesOf (elementWith repeatedStyles) = repeatedStyles"
    by (simp add: appliedStylesOf_def elementWith_def)
  have mem: "cardInfo 0 \<in> set ?res"
    by (simp add: eval_repeated)
  have processed: "\<forall>s \<in> set (appliedStylesOf (elementWith repeatedStyles)).
                     styleProcessed (currentPresetOf (Resolves None)) s"
    unfolding styles by (rule repeated_processed)
  have idx: "firstIndex (hasId ''a'') repeatedStyles = 0"
    by (simp add: repeatedStyles_def hasId_def mockStyle_def)
  have ida: "info_id (cardInfo 0) = ''a''"
    by (simp add: cardInfo_def)
  from C9_first_processed_occurrence_wins [of "elementWith repeatedStyles" "Resolves None"]
  have d: "distinct (map info_id ?res)"
    and f: "\<forall>r \<in> set ?res.
              order r = int (firstIndex (hasId (info_id r)) (appliedStylesOf (elementWith repeatedStyles)))"
    using processed by blast+
  from f mem have "order (cardInfo 0) = int (firstIndex (hasId ''a'') repeatedStyles)"
    unfolding styles using ida by fastforce
  with mem processed idx d show ?thesis
    by (simp add: list_all_iff)
qed

lemma eval_retried:
  "getAppliedStyles (elementWith retriedStyles) (Resolves None) = [cardInfo 1]"
  by (simp add: getAppliedStyles_def elementWith_def retriedStyles_def forLoop.simps
      processStyle_def failingStyle_def mockStyle_def detectComboClass_def fetchApiResult_def
      effectivePolicy_def heuristic_def comboPattern_def alnumClass_def trim_def isWhiteSpace_def
      startsWith_def cardInfo_def)

lemma throwing_policy_skips_styles:
  "getAppliedStyles (elementWith [mockStyle ''1'' ''card'' None])
       (Resolves (Some (withPolicy (CustomPolicy throwingPolicy)))) = []"
  by (simp add: getAppliedStyles_def elementWith_def forLoop.simps processStyle_def
      mockStyle_def detectComboClass_def fetchApiResult_def effectivePolicy_def withPolicy_def
      throwingPolicy_def)

text \<open>
  C9 as stated fails when \<open>getName\<close> rejects for the first style of an id: the
  iteration is abandoned before the id is recorded, and a later style of the same id is
  returned with its own index, 1, while the first occurrence of the id is at index 0.
  A custom policy that throws abandons an iteration in the same way.
\<close>

theorem C9_later_duplicate_returned:
  "getAppliedStyles (elementWith retriedStyles) (Resolves None) = [cardInfo 1]
   \<and> order (cardInfo 1) = 1
   \<and> firstIndex (hasId (info_id (cardInfo 1))) retriedStyles = 0"
  by (simp add: eval_retried) (simp add: cardInfo_def retriedStyles_def hasId_def failingStyle_def)

section \<open>Sorting by type\<close>

lemma comesBefore_iff:
  "comesBefore a b =
     (if info_isCombo a = info_isCombo b then order a \<le> order b else \<not> info_isCombo a)"
  by (simp add: comesBefore_def compareStyles_def Let_def)

lemma comesBefore_total: "comesBefore a b \<or> comesBefore b a"
  by (auto simp: comesBefore_iff)

lemma comesBefore_trans: "comesBefore a b \<Longrightarrow> comesBefore b c \<Longrightarrow> comesBefore a c"
  by (auto simp: comesBefore_iff split: if_splits)

lemma set_insertBy: "set (insertBy cmp x ys) = insert x (set ys)"
  by (induction ys) auto

lemma mset_insertBy: "mset (insertBy cmp x ys) = add_mset x (mset ys)"
  by (induction ys) auto

lemma mset_sortBy: "mset (sortBy cmp xs) = mset xs"
  by (induction xs) (simp_all add: sortBy_def mset_insertBy)

lemma sorted_insertBy:
  "sorted_wrt comesBefore ys \<Longrightarrow> sorted_wrt comesBefore (insertBy compareStyles x ys)"
proof (induction ys)
  case Nil
  then show ?case by simp
next
  case (Cons y ys)
  show ?case
  proof (cases "compareStyles x y \<le> 0")
    case True
    then have xy: "comesBefore x y" by (simp add: comesBefore_def)
    have "\<forall>z \<in> set ys. comesBefore x z"
      using Cons.prems xy comesBefore_trans by auto
    with True xy Cons.prems show ?thesis by simp
  next
    case False
    then have "comesBefore y x"
      using comesBefore_total [of x y] by (simp add: comesBefore_def)
    with False Cons show ?thesis by (auto simp: set_insertBy)
  qed
qed

lemma sorted_sortBy: "sorted_wrt comesBefore (sortBy compareStyles xs)"
  by (induction xs) (simp_all add: sortBy_def sorted_insertBy)

lemma sorted_partition:
  "sorted_wrt comesBefore xs \<Longrightarrow> filter notCombo xs @ filter info_isCombo xs = xs"
proof (induction xs)
  case Nil
  then show ?case by simp
next
  case (Cons x xs)
  show ?case
  proof (cases "info_isCombo x")
    case True
    have "\<forall>y \<in> set xs. info_isCombo y"
    proof
      fix y assume "y \<in> set xs"
      with Cons.prems have "comesBefore x y" by simp
      with True show "info_isCombo y" by (simp add: comesBefore_iff split: if_splits)
    qed
    then have "filter notCombo xs = []" "filter info_isCombo xs = xs"
      by (simp_all add: notCombo_def filter_empty_conv filter_id_conv)
    moreover have "\<not> notCombo x" using True by (simp add: notCombo_def)
    ultimately show ?thesis using True by simp
  next
    case False
    then have "notCombo x" by (simp add: notCombo_def)
    with False Cons show ?thesis by simp
  qed
qed

lemma sorted_group:
  assumes "sorted_wrt comesBefore xs" and "\<forall>x \<in> set xs. info_isCombo x = b"
  shows "sorted (map order xs)"
proof -
  have "sorted_wrt (\<lambda>x y. order x \<le> order y) xs"
    using assms(1)
  proof (rule sorted_wrt_mono_rel [rotated])
    fix x y assume "x \<in> set xs" "y \<in> set xs" "comesBefore x y"
    with assms(2) show "order x \<le> order y" by (simp add: comesBefore_iff)
  qed
  then show ?thesis by (simp add: sorted_map)
qed

lemma sortBy_groups:
  "sorted (map order (filter notCombo (sortBy compareStyles xs)))
   \<and> sorted (map order (filter info_isCombo (sortBy compareStyles xs)))"
proof
  show "sorted (map order (filter notCombo (sortBy compareStyles xs)))"
    by (rule sorted_group [where b = False])
       (simp_all add: sorted_wrt_filter sorted_sortBy notCombo_def)
  show "sorted (map order (filter info_isCombo (sortBy compareStyles xs)))"
    by (rule sorted_group [where b = True])
       (simp_all add: sorted_wrt_filter sorted_sortBy)
qed

lemma sortStylesByType_eq:
  "styles < length h \<Longrightarrow>
     sortStylesByType h styles = (length h, h @ [sortBy compareStyles (h ! styles)])"
  by (simp add: sortStylesByType_def spread_def sortInPlace_def nth_append)

text \<open>
  C10. Called with a reference to an allocated array, \<open>sortStylesByType\<close> leaves every
  array that existed before the call as it was, the input among them, and returns a
  reference to a new array. The new array has the elements of the input; it consists of
  its styles that are not combos followed by its combos, and each of the two groups is in
  ascending \<open>order\<close>.
\<close>

theorem C10_sort_by_type:
  assumes "styles < length h"
  shows "take (length h) (snd (sortStylesByType h styles)) = h
    \<and> fst (sortStylesByType h styles) \<noteq> styles
    \<and> mset (snd (sortStylesByType h styles) ! fst (sortStylesByType h styles)) = mset (h ! styles)
    \<and> filter notCombo (snd (sortStylesByType h styles) ! fst (sortStylesByType h styles))
        @ filter info_isCombo (snd (sortStylesByType h styles) ! fst (sortStylesByType h styles))
      = snd (sortStylesByType h styles) ! fst (sortStylesByType h styles)
    \<and> sorted (map order (filter notCombo
        (snd (sortStylesByType h styles) ! fst (sortStylesByType h styles))))
    \<and> sorted (map order (filter info_isCombo
        (snd (sortStylesByType h styles) ! fst (sortStylesByType h styles))))"
  using assms
  by (simp add: sortStylesByType_eq mset_sortBy sorted_partition sorted_sortBy sortBy_groups)


lemma eval_mixed:
  "sortBy compareStyles (mixedStore ! 0) =
     [info ''a'' 0 False, info ''c'' 2 False, info ''b'' 1 True, info ''d'' 3 True]"
  by (simp add: mixedStore_def sortBy_def compareStyles_def info_def)

text \<open>
  C10 at a store with one array, holding two combos and two other styles in descending
  \<open>order\<close>.
\<close>

theorem C10_sort_by_type_witness:
  "(0::nat) < length mixedStore
   \<and> snd (sortStylesByType mixedStore 0) ! 0 = mixedStore ! 0
   \<and> fst (sortStylesByType mixedStore 0) = 1
   \<and> snd (sortStylesByType mixedStore 0) ! 1 =
       [info ''a'' 0 False, info ''c'' 2 False, info ''b'' 1 True, info ''d'' 3 True]
   \<and> sorted (map order (filter info_isCombo (snd (sortStylesByType mixedStore 0) ! 1)))"
proof -
  have len: "(0::nat) < length mixedStore"
    by (simp add: mixedStore_def)
  have ref: "fst (sortStylesByType mixedStore 0) = 1"
    by (simp add: sortStylesByType_eq [OF len]) (simp add: mixedStore_def)
  have arr: "snd (sortStylesByType mixedStore 0) ! 1 =
       [info ''a'' 0 False, info ''c'' 2 False, info ''b'' 1 True, info ''d'' 3 True]"
    by (simp add: sortStylesByType_eq [OF len] eval_mixed nth_append) (simp add: mixedStore_def)
  from C10_sort_by_type [OF len]
  have keep: "take (length mixedStore) (snd (sortStylesByType mixedStore 0)) = mixedStore"
    and srt: "sorted (map order (filter info_isCombo
        (snd (sortStylesByType mixedStore 0) ! fst (sortStylesByType mixedStore 0))))"
    by blast+
  have "snd (sortStylesByType mixedStore 0) ! 0
          = take (length mixedStore) (snd (sortStylesByType mixedStore 0)) ! 0"
    using len by simp
  with keep have "snd (sortStylesByType mixedStore 0) ! 0 = mixedStore ! 0" by simp
  with len ref arr srt show ?thesis by simp
qed

end
